theory Spec2Isabelle
  imports Main "HOL-Library.Sublist"
begin

section \<open>JavaScript values used by the GitHub API client\<close>

text \<open>
  The payload of a response is whatever \<^verbatim>\<open>response.json()\<close> parses: a JSON value.
  The client never looks inside a payload; the only thing it asks of one is whether it is
  truthy (\<^verbatim>\<open>if (cached)\<close>), so numbers are kept as integers: ToBoolean of a number only
  asks whether it is zero.
\<close>

datatype json =
    JNull
  | JBool bool
  | JNum int
  | JStr string
  | JArr "json list"
  | JObj "(string \<times> json) list"

text \<open>ToBoolean: \<^verbatim>\<open>null\<close>, \<^verbatim>\<open>false\<close>, \<^verbatim>\<open>0\<close> and \<^verbatim>\<open>""\<close> are falsy, every array and object is truthy.\<close>

fun truthy :: "json \<Rightarrow> bool" where
  "truthy JNull = False"
| "truthy (JBool b) = b"
| "truthy (JNum n) = (n \<noteq> 0)"
| "truthy (JStr s) = (s \<noteq> [])"
| "truthy (JArr xs) = True"
| "truthy (JObj kvs) = True"

text \<open>
  Thrown values. \<^verbatim>\<open>new Error(msg)\<close> is what the client itself throws; \<^verbatim>\<open>fetch\<close> rejects with a
  \<^verbatim>\<open>TypeError\<close> when the transport fails and \<^verbatim>\<open>response.json()\<close> with a \<^verbatim>\<open>SyntaxError\<close> when the
  body is not JSON.
\<close>

datatype js_error = Error string | TypeError string | SyntaxError string


section \<open>The client object and its cache\<close>

text \<open>
  \<^verbatim>\<open>this.cache\<close> is a \<^verbatim>\<open>Map\<close> from the endpoint string to \<^verbatim>\<open>{data, timestamp}\<close>; timestamps are
  readings of \<^verbatim>\<open>Date.now()\<close>, whole milliseconds.
\<close>

record cache_entry =
  data :: json
  timestamp :: int

record GitHubAPI =
  baseURL :: string
  cache :: "string \<rightharpoonup> cache_entry"
  cacheTimeout :: int

definition constructor :: GitHubAPI where
  "constructor =
     \<lparr>baseURL = ''https://api.github.com'', cache = Map.empty, cacheTimeout = 5 * 60 * 1000\<rparr>"

text \<open>
  Every method takes the object and returns it again, so that what a method does to the
  object is part of its result. \<open>now\<close> is the reading of \<^verbatim>\<open>Date.now()\<close> the method takes.
  \<^verbatim>\<open>getCached\<close> returns \<^verbatim>\<open>cached.data\<close> or \<^verbatim>\<open>null\<close>, and assigns nothing.
\<close>

definition getCached :: "GitHubAPI \<Rightarrow> int \<Rightarrow> string \<Rightarrow> json \<times> GitHubAPI" where
  "getCached this now key =
     (case cache this key of
        Some cached \<Rightarrow>
          if now - timestamp cached < cacheTimeout this then (data cached, this)
          else (JNull, this)
      | None \<Rightarrow> (JNull, this))"

definition setCache :: "GitHubAPI \<Rightarrow> int \<Rightarrow> string \<Rightarrow> json \<Rightarrow> GitHubAPI" where
  "setCache this now key d =
     this\<lparr>cache := (cache this)(key \<mapsto> \<lparr>data = d, timestamp = now\<rparr>)\<rparr>"



section \<open>Number to string\<close>

text \<open>
  A template literal turns a number into its decimal digits. \<open>digit\<close> is only ever applied
  to a number below ten.
\<close>

definition digit :: "nat \<Rightarrow> char" where
  "digit d = ''0123456789'' ! d"

fun decimal :: "nat \<Rightarrow> string" where
  "decimal n = (if 10 \<le> n then decimal (n div 10) else []) @ [digit (n mod 10)]"

text \<open>ToString of a whole number: a minus sign in front of the digits of a negative one.\<close>

definition ToString :: "int \<Rightarrow> string" where
  "ToString i = (if 0 \<le> i then decimal (nat i) else CHR ''-'' # decimal (nat (- i)))"


section \<open>The network and the request method\<close>

text \<open>
  What \<^verbatim>\<open>fetch\<close> gives back: the promise rejects (the transport failed), or it resolves
  with a response that has a numeric status and a body, and \<^verbatim>\<open>response.json()\<close> either
  parses the body or rejects. \<^verbatim>\<open>response.ok\<close> is, by the Fetch standard, true exactly
  for a status from 200 to 299.
\<close>

record response =
  status_code :: nat
  json_body :: "js_error + json"

definition ok :: "response \<Rightarrow> bool" where
  "ok r = (200 \<le> status_code r \<and> status_code r \<le> 299)"

datatype fetch_result = Rejects js_error | Resolves response

type_synonym network = "string \<Rightarrow> (string \<times> string) list \<Rightarrow> fetch_result"

definition accept_headers :: "(string \<times> string) list" where
  "accept_headers = [(''Accept'', ''application/vnd.github.v3+json'')]"

text \<open>
  The result of one call of \<^verbatim>\<open>request\<close>: how the returned promise settles (\<open>Inl\<close> the value
  thrown, \<open>Inr\<close> the value returned), the object afterwards, and the URLs handed to
  \<^verbatim>\<open>fetch\<close> on the way.
\<close>

record request_run =
  settled :: "js_error + json"
  this_after :: GitHubAPI
  fetched :: "string list"

text \<open>
  \<open>now\<close> is the clock when the cache is consulted, \<open>later\<close> the clock when the response has
  arrived and is stored. The \<^verbatim>\<open>catch\<close> block logs the error and throws it again, so every
  thrown value reaches the caller as it is.
\<close>

definition request :: "GitHubAPI \<Rightarrow> network \<Rightarrow> int \<Rightarrow> int \<Rightarrow> string \<Rightarrow> request_run" where
  "request this fetch now later endpoint =
     (let cacheKey = endpoint;
          (cached, this1) = getCached this now cacheKey
      in if truthy cached
         then \<lparr>settled = Inr cached, this_after = this1, fetched = []\<rparr>
         else
           (let url = baseURL this1 @ endpoint
            in case fetch url accept_headers of
                 Rejects error \<Rightarrow>
                   \<lparr>settled = Inl error, this_after = this1, fetched = [url]\<rparr>
               | Resolves resp \<Rightarrow>
                   if \<not> ok resp
                   then \<lparr>settled =
                           Inl (Error (''GitHub API error: '' @ decimal (status_code resp))),
                         this_after = this1, fetched = [url]\<rparr>
                   else
                     (case json_body resp of
                        Inl error \<Rightarrow>
                          \<lparr>settled = Inl error, this_after = this1, fetched = [url]\<rparr>
                      | Inr d \<Rightarrow>
                          \<lparr>settled = Inr d, this_after = setCache this1 later cacheKey d,
                           fetched = [url]\<rparr>)))"


section \<open>Parsing a repository URL\<close>

record RepoRef =
  owner :: string
  repo :: string

text \<open>
  The pattern \<^verbatim>\<open>/github\.com\/([^\/]+)\/([^\/]+)/\<close> tried at the head of \<open>s\<close>: the literal
  \<^verbatim>\<open>github.com/\<close>, then the longest run of characters other than \<^verbatim>\<open>/\<close> (it must not be empty
  and must be followed by \<^verbatim>\<open>/\<close>; giving characters back never helps, since what would
  follow a shorter run is again not a \<^verbatim>\<open>/\<close>), then the longest run of characters other
  than \<^verbatim>\<open>/\<close>, not empty. The result is the two groups.
\<close>

definition not_slash :: "char \<Rightarrow> bool" where
  "not_slash c = (c \<noteq> CHR ''/'')"

definition match_here :: "string \<Rightarrow> (string \<times> string) option" where
  "match_here s =
     (if prefix ''github.com/'' s
      then
        (let s1 = drop (length ''github.com/'') s;
             g1 = takeWhile not_slash s1
         in if g1 = [] then None
            else
              (case dropWhile not_slash s1 of
                 [] \<Rightarrow> None
               | c # s2 \<Rightarrow>
                   (let g2 = takeWhile not_slash s2
                    in if g2 = [] then None else Some (g1, g2))))
      else None)"

text \<open>
  \<^verbatim>\<open>url.match(regex)\<close> without the \<^verbatim>\<open>g\<close> flag: the match that starts leftmost, or \<^verbatim>\<open>null\<close>.
\<close>

fun match :: "string \<Rightarrow> (string \<times> string) option" where
  "match [] = match_here []"
| "match (c # s) =
     (case match_here (c # s) of
        Some m \<Rightarrow> Some m
      | None \<Rightarrow> match s)"

text \<open>\<^verbatim>\<open>.replace(/\.git$/, '')\<close>: without the \<^verbatim>\<open>m\<close> flag, \<^verbatim>\<open>$\<close> is the end of the string only.\<close>

definition replace_git :: "string \<Rightarrow> string" where
  "replace_git s = (if suffix ''.git'' s then take (length s - length ''.git'') s else s)"

definition parseRepoURL :: "string \<Rightarrow> js_error + RepoRef" where
  "parseRepoURL url =
     (case match url of
        None \<Rightarrow> Inl (Error ''Invalid GitHub repository URL'')
      | Some (m1, m2) \<Rightarrow> Inr \<lparr>owner = m1, repo = replace_git m2\<rparr>)"

text \<open>
  The shape the parser is specified on: \<open>url\<close> is \<open>pre\<close>, the domain token with its slash, an
  owner segment, a slash, a repository segment and \<open>rest\<close>, where a segment is a non-empty
  run of characters other than \<^verbatim>\<open>/\<close> and the repository segment runs up to the next \<^verbatim>\<open>/\<close> or
  the end of the input.
\<close>

definition two_segments_at :: "string \<Rightarrow> string \<Rightarrow> string \<Rightarrow> string \<Rightarrow> string \<Rightarrow> bool" where
  "two_segments_at url pre ow rp rest \<longleftrightarrow>
     url = pre @ ''github.com/'' @ ow @ ''/'' @ rp @ rest
     \<and> ow \<noteq> [] \<and> CHR ''/'' \<notin> set ow
     \<and> rp \<noteq> [] \<and> CHR ''/'' \<notin> set rp
     \<and> (rest = [] \<or> hd rest = CHR ''/'')"


section \<open>Status class and status text\<close>

text \<open>
  \<open>conclusion\<close> and \<open>status\<close> are fields of a workflow run: a string, or \<^verbatim>\<open>null\<close> (also a
  field that is not there), which is \<open>None\<close>. \<^verbatim>\<open>status || 'queued'\<close> takes the right operand when
  the left one is falsy: \<^verbatim>\<open>null\<close> or the empty string.
\<close>

definition or_default :: "string option \<Rightarrow> string \<Rightarrow> string" where
  "or_default v d = (case v of None \<Rightarrow> d | Some s \<Rightarrow> if s = [] then d else s)"

definition getStatusClass :: "string option \<Rightarrow> string option \<Rightarrow> string" where
  "getStatusClass conclusion st =
     (if st = Some ''in_progress'' \<or> st = Some ''queued'' then the st
      else if conclusion = Some ''success'' then ''success''
      else if conclusion = Some ''failure'' then ''failure''
      else if conclusion = Some ''cancelled'' then ''cancelled''
      else or_default st ''queued'')"

definition getStatusText :: "string option \<Rightarrow> string option \<Rightarrow> string" where
  "getStatusText conclusion st =
     (if st = Some ''in_progress'' then ''In Progress''
      else if st = Some ''queued'' then ''Queued''
      else if conclusion = Some ''success'' then ''Success''
      else if conclusion = Some ''failure'' then ''Failure''
      else if conclusion = Some ''cancelled'' then ''Cancelled''
      else or_default st ''Unknown'')"


section \<open>Formatting a date\<close>

text \<open>
  \<open>date\<close> is the time value of \<^verbatim>\<open>new Date(dateString)\<close> in milliseconds, \<open>None\<close> when the string
  does not parse (the time value is then \<^verbatim>\<open>NaN\<close>, every comparison with it is false and the
  last line is reached). \<open>now\<close> is the time value of \<^verbatim>\<open>new Date()\<close>. \<^verbatim>\<open>Math.floor\<close> of a quotient
  of whole numbers is \<open>div\<close>, which rounds down for negative numbers too.
  \<open>toLocaleDateString\<close> is the host's formatting of a date, a parameter here.
\<close>

definition formatDate :: "(int option \<Rightarrow> string) \<Rightarrow> int \<Rightarrow> int option \<Rightarrow> string" where
  "formatDate toLocaleDateString now date =
     (case date of
        None \<Rightarrow> toLocaleDateString date
      | Some d \<Rightarrow>
          (let diffMs = now - d;
               diffMins = diffMs div 60000;
               diffHours = diffMs div 3600000;
               diffDays = diffMs div 86400000
           in if diffMins < 1 then ''just now''
              else if diffMins < 60
                then ToString diffMins @ '' minute'' @ (if diffMins > 1 then ''s'' else [])
                       @ '' ago''
              else if diffHours < 24
                then ToString diffHours @ '' hour'' @ (if diffHours > 1 then ''s'' else [])
                       @ '' ago''
              else if diffDays < 7
                then ToString diffDays @ '' day'' @ (if diffDays > 1 then ''s'' else [])
                       @ '' ago''
              else toLocaleDateString date))"


section \<open>Auxiliary facts\<close>

declare decimal.simps [simp del]






lemma getCached_snd: "snd (getCached this now k) = this"
  by (simp add: getCached_def split: option.splits)

text \<open>The two paths of \<^verbatim>\<open>request\<close>: a truthy lookup, and anything else.\<close>

lemma request_hit:
  "truthy (fst (getCached this now endpoint)) \<Longrightarrow>
   request this fetch now later endpoint =
     \<lparr>settled = Inr (fst (getCached this now endpoint)), this_after = this, fetched = []\<rparr>"
  using getCached_snd [of this now endpoint]
  by (cases "getCached this now endpoint") (simp add: request_def)




section \<open>The request method\<close>

text \<open>
  C1. The claim: whenever the key has an entry younger than the timeout, \<^verbatim>\<open>request\<close> returns
  its payload and makes no network call. The code tests the looked-up payload for
  truthiness, so an entry that holds \<^verbatim>\<open>false\<close> (likewise \<^verbatim>\<open>0\<close>, \<^verbatim>\<open>""\<close>, \<^verbatim>\<open>null\<close>) is looked up
  successfully and then fetched again: here the entry stored at time 1000 is found by the
  lookup at time 2000, and the call at time 2000 still goes to the network and overwrites it.
\<close>

theorem request_falsy_hit_refetches:
  "fst (getCached (setCache constructor 1000 ''/x'' (JBool False)) 2000 ''/x'') = JBool False
   \<and> request (setCache constructor 1000 ''/x'' (JBool False))
        (\<lambda>url headers. Resolves \<lparr>status_code = 200, json_body = Inr (JNum 1)\<rparr>) 2000 3000 ''/x''
      = \<lparr>settled = Inr (JNum 1),
         this_after = setCache (setCache constructor 1000 ''/x'' (JBool False)) 3000 ''/x'' (JNum 1),
         fetched = [''https://api.github.com/x'']\<rparr>"
  by (simp add: request_def Let_def getCached_def setCache_def constructor_def ok_def)






section \<open>Cache lookup and store\<close>

text \<open>
  C3. A lookup returns the stored payload when the key has an entry younger than the
  timeout; an entry whose age has reached the timeout, and a key with no entry, give the
  miss value \<^verbatim>\<open>null\<close>; a result other than \<^verbatim>\<open>null\<close> can only come from an entry younger than
  the timeout; and the lookup leaves the object, stale entries included, as it was.
\<close>

theorem getCached_fresh_only:
  "(\<forall>e. cache this k = Some e \<and> now - timestamp e < cacheTimeout this
        \<longrightarrow> fst (getCached this now k) = data e)
   \<and> (\<forall>e. cache this k = Some e \<and> cacheTimeout this \<le> now - timestamp e
        \<longrightarrow> fst (getCached this now k) = JNull)
   \<and> (cache this k = None \<longrightarrow> fst (getCached this now k) = JNull)
   \<and> (fst (getCached this now k) \<noteq> JNull
        \<longrightarrow> (\<exists>e. cache this k = Some e \<and> now - timestamp e < cacheTimeout this
               \<and> fst (getCached this now k) = data e))
   \<and> snd (getCached this now k) = this"
  by (cases "cache this k") (simp_all add: getCached_def)

theorem getCached_fresh_only_witness:
  "fst (getCached (setCache constructor 1000 ''/repos/a/b'' (JStr ''x'')) 300999 ''/repos/a/b'')
     = JStr ''x''
   \<and> fst (getCached (setCache constructor 1000 ''/repos/a/b'' (JStr ''x'')) 301000 ''/repos/a/b'')
     = JNull
   \<and> cache (snd (getCached (setCache constructor 1000 ''/repos/a/b'' (JStr ''x'')) 301000
        ''/repos/a/b'')) ''/repos/a/b'' = Some \<lparr>data = JStr ''x'', timestamp = 1000\<rparr>
   \<and> fst (getCached (setCache constructor 1000 ''/repos/a/b'' (JStr ''x'')) 2000 ''/repos/a'')
     = JNull"
  using getCached_fresh_only
      [of "setCache constructor 1000 ''/repos/a/b'' (JStr ''x'')" "''/repos/a/b''" 300999]
    getCached_fresh_only
      [of "setCache constructor 1000 ''/repos/a/b'' (JStr ''x'')" "''/repos/a/b''" 301000]
    getCached_fresh_only
      [of "setCache constructor 1000 ''/repos/a/b'' (JStr ''x'')" "''/repos/a''" 2000]
  by (simp add: setCache_def constructor_def)

text \<open>
  C4. A store replaces whatever the key held by the new payload and the time of the store,
  whether or not the key had an entry, touches no other key, and a lookup of the key taken
  while the age of the new entry is below the timeout returns the payload as stored.
\<close>

theorem setCache_then_getCached:
  "cache (setCache this t k v) k = Some \<lparr>data = v, timestamp = t\<rparr>
   \<and> (\<forall>k'. k' \<noteq> k \<longrightarrow> cache (setCache this t k v) k' = cache this k')
   \<and> (t' - t < cacheTimeout this \<longrightarrow> fst (getCached (setCache this t k v) t' k) = v)"
  by (simp add: setCache_def getCached_def)

theorem setCache_then_getCached_witness:
  "cache (setCache (setCache constructor 5 ''/repos/a/b'' (JNum 1)) 1000 ''/repos/a/b'' JNull)
      ''/repos/a/b'' = Some \<lparr>data = JNull, timestamp = 1000\<rparr>
   \<and> fst (getCached
        (setCache (setCache constructor 5 ''/repos/a/b'' (JNum 1)) 1000 ''/repos/a/b''
           (JObj [(''id'', JNum 7)])) 1000 ''/repos/a/b'') = JObj [(''id'', JNum 7)]"
  using setCache_then_getCached
      [of "setCache constructor 5 ''/repos/a/b'' (JNum 1)" 1000 "''/repos/a/b''" JNull 1000]
    setCache_then_getCached
      [of "setCache constructor 5 ''/repos/a/b'' (JNum 1)" 1000 "''/repos/a/b''"
          "JObj [(''id'', JNum 7)]" 1000]
  by (simp add: setCache_def constructor_def)


section \<open>Status class and status text\<close>

text \<open>
  C8, as the code has it. A status \<^verbatim>\<open>in_progress\<close> or \<^verbatim>\<open>queued\<close> decides class and text
  whatever the conclusion is; otherwise the conclusions \<^verbatim>\<open>success\<close>, \<^verbatim>\<open>failure\<close> and
  \<^verbatim>\<open>cancelled\<close> give themselves as class and their capitalised form as text; any other
  conclusion, \<^verbatim>\<open>null\<close> included, gives the status for both when the status is a string
  that is not empty, and \<^verbatim>\<open>queued\<close> as class and \<^verbatim>\<open>Unknown\<close> as text when the status is \<^verbatim>\<open>null\<close>
  or the empty string. Both functions go through the same cases in the same order.
\<close>

theorem status_class_and_text:
  "(st = Some ''in_progress'' \<longrightarrow>
      getStatusClass c st = ''in_progress'' \<and> getStatusText c st = ''In Progress'')
   \<and> (st = Some ''queued'' \<longrightarrow>
      getStatusClass c st = ''queued'' \<and> getStatusText c st = ''Queued'')
   \<and> (st \<noteq> Some ''in_progress'' \<and> st \<noteq> Some ''queued'' \<longrightarrow>
        (c = Some ''success'' \<longrightarrow>
           getStatusClass c st = ''success'' \<and> getStatusText c st = ''Success'')
      \<and> (c = Some ''failure'' \<longrightarrow>
           getStatusClass c st = ''failure'' \<and> getStatusText c st = ''Failure'')
      \<and> (c = Some ''cancelled'' \<longrightarrow>
           getStatusClass c st = ''cancelled'' \<and> getStatusText c st = ''Cancelled'')
      \<and> (c \<noteq> Some ''success'' \<and> c \<noteq> Some ''failure'' \<and> c \<noteq> Some ''cancelled'' \<longrightarrow>
           (\<forall>s. st = Some s \<and> s \<noteq> [] \<longrightarrow> getStatusClass c st = s \<and> getStatusText c st = s)
         \<and> (st = None \<or> st = Some [] \<longrightarrow>
              getStatusClass c st = ''queued'' \<and> getStatusText c st = ''Unknown'')))"
  by (auto simp: getStatusClass_def getStatusText_def or_default_def)

theorem status_class_and_text_witness:
  "getStatusClass (Some ''success'') (Some ''in_progress'') = ''in_progress''
   \<and> getStatusText (Some ''success'') (Some ''in_progress'') = ''In Progress''
   \<and> getStatusClass (Some ''failure'') (Some ''queued'') = ''queued''
   \<and> getStatusText (Some ''failure'') (Some ''queued'') = ''Queued''
   \<and> getStatusClass (Some ''success'') (Some ''completed'') = ''success''
   \<and> getStatusText (Some ''success'') (Some ''completed'') = ''Success''
   \<and> getStatusClass (Some ''failure'') (Some ''completed'') = ''failure''
   \<and> getStatusText (Some ''failure'') (Some ''completed'') = ''Failure''
   \<and> getStatusClass (Some ''cancelled'') None = ''cancelled''
   \<and> getStatusText (Some ''cancelled'') None = ''Cancelled''
   \<and> getStatusClass (Some ''skipped'') (Some ''completed'') = ''completed''
   \<and> getStatusText None (Some ''completed'') = ''completed''
   \<and> getStatusClass None None = ''queued''
   \<and> getStatusText None None = ''Unknown''"
  using status_class_and_text [of "Some ''in_progress''" "Some ''success''"]
    status_class_and_text [of "Some ''queued''" "Some ''failure''"]
    status_class_and_text [of "Some ''completed''" "Some ''success''"]
    status_class_and_text [of "Some ''completed''" "Some ''failure''"]
    status_class_and_text [of None "Some ''cancelled''"]
    status_class_and_text [of "Some ''completed''" "Some ''skipped''"]
    status_class_and_text [of "Some ''completed''" None]
    status_class_and_text [of None None]
  by simp

text \<open>
  C8 as stated lets a conclusion that decides nothing fall back to the status value unless
  the status is absent. A status that is there but empty is not returned: with a \<^verbatim>\<open>null\<close>
  conclusion and the status \<^verbatim>\<open>""\<close> the class is \<^verbatim>\<open>queued\<close> and the text \<^verbatim>\<open>Unknown\<close>.
\<close>

theorem status_empty_string_counterexample:
  "getStatusClass None (Some '''') = ''queued'' \<and> getStatusClass None (Some '''') \<noteq> ''''
   \<and> getStatusText None (Some '''') = ''Unknown'' \<and> getStatusText None (Some '''') \<noteq> ''''"
  by (simp add: getStatusClass_def getStatusText_def or_default_def)


section \<open>Formatting a date\<close>

text \<open>
  C9. For a date before now, with the difference in milliseconds: below one minute the
  text is \<^verbatim>\<open>just now\<close>; below sixty minutes it is the whole minutes, rounded down, with
  \<^verbatim>\<open>minute\<close> (\<^verbatim>\<open>minutes\<close> from two on) and \<^verbatim>\<open>ago\<close>; below twenty-four hours the same with whole
  hours; below seven days the same with whole days; from seven days on it is the host's
  date format of the date. Each bucket includes its lower bound: exactly sixty minutes is
  \<^verbatim>\<open>1 hour ago\<close>.
\<close>

theorem formatDate_past_buckets:
  assumes "d < now"
  shows "formatDate loc now (Some d) =
      (if now - d < 60000 then ''just now''
       else if now - d < 60 * 60000
         then ToString ((now - d) div 60000) @ '' minute''
              @ (if 1 < (now - d) div 60000 then ''s'' else []) @ '' ago''
       else if now - d < 24 * 3600000
         then ToString ((now - d) div 3600000) @ '' hour''
              @ (if 1 < (now - d) div 3600000 then ''s'' else []) @ '' ago''
       else if now - d < 7 * 86400000
         then ToString ((now - d) div 86400000) @ '' day''
              @ (if 1 < (now - d) div 86400000 then ''s'' else []) @ '' ago''
       else loc (Some d))
    \<and> formatDate loc now (Some (now - 60 * 60000)) = ''1 hour ago''"
proof -
  have m: "(now - d) div 60000 < 1 \<longleftrightarrow> now - d < 60000"
    and m60: "(now - d) div 60000 < 60 \<longleftrightarrow> now - d < 60 * 60000"
    and h24: "(now - d) div 3600000 < 24 \<longleftrightarrow> now - d < 24 * 3600000"
    and d7: "(now - d) div 86400000 < 7 \<longleftrightarrow> now - d < 7 * 86400000"
    by linarith+
  have first: "formatDate loc now (Some d) =
      (if now - d < 60000 then ''just now''
       else if now - d < 60 * 60000
         then ToString ((now - d) div 60000) @ '' minute''
              @ (if 1 < (now - d) div 60000 then ''s'' else []) @ '' ago''
       else if now - d < 24 * 3600000
         then ToString ((now - d) div 3600000) @ '' hour''
              @ (if 1 < (now - d) div 3600000 then ''s'' else []) @ '' ago''
       else if now - d < 7 * 86400000
         then ToString ((now - d) div 86400000) @ '' day''
              @ (if 1 < (now - d) div 86400000 then ''s'' else []) @ '' ago''
       else loc (Some d))"
    unfolding formatDate_def Let_def option.case m m60 h24 d7 by simp
  have second: "formatDate loc now (Some (now - 60 * 60000)) = ''1 hour ago''"
    by (simp add: formatDate_def Let_def ToString_def decimal.simps [of "Suc 0"]
        digit_def)
  from first second show ?thesis by simp
qed

theorem formatDate_past_buckets_witness:
  "(999970000::int) < 1000000000
   \<and> formatDate (\<lambda>date. ''1/1/1970'') 1000000000 (Some 999970000) = ''just now''
   \<and> formatDate (\<lambda>date. ''1/1/1970'') 1000000000 (Some 999880000) = ''2 minutes ago''
   \<and> formatDate (\<lambda>date. ''1/1/1970'') 1000000000 (Some 994600000) = ''1 hour ago''
   \<and> formatDate (\<lambda>date. ''1/1/1970'') 1000000000 (Some 740800000) = ''3 days ago''
   \<and> formatDate (\<lambda>date. ''1/1/1970'') 1000000000 (Some 136000000) = ''1/1/1970''"
  using formatDate_past_buckets [of 999970000 1000000000 "\<lambda>date. ''1/1/1970''"]
    formatDate_past_buckets [of 999880000 1000000000 "\<lambda>date. ''1/1/1970''"]
    formatDate_past_buckets [of 994600000 1000000000 "\<lambda>date. ''1/1/1970''"]
    formatDate_past_buckets [of 740800000 1000000000 "\<lambda>date. ''1/1/1970''"]
    formatDate_past_buckets [of 136000000 1000000000 "\<lambda>date. ''1/1/1970''"]
  by (simp add: ToString_def decimal.simps [of 2] decimal.simps [of 3]
      decimal.simps [of "Suc 0"] digit_def)

text \<open>
  C10. For a date equal to now or after it the text is \<^verbatim>\<open>just now\<close>: the whole minutes of a
  difference that is not positive are below one.
\<close>

theorem formatDate_future_just_now:
  assumes "now \<le> d"
  shows "formatDate loc now (Some d) = ''just now''"
proof -
  from assms have "(now - d) div 60000 \<le> 0"
    by linarith
  then show ?thesis by (simp add: formatDate_def Let_def)
qed

theorem formatDate_future_just_now_witness:
  "(1000000000::int) \<le> 1000000000
   \<and> formatDate (\<lambda>date. ''1/1/1970'') 1000000000 (Some 1000000000) = ''just now''
   \<and> formatDate (\<lambda>date. ''1/1/1970'') 1000000000 (Some 9000000000) = ''just now''"
  using formatDate_future_just_now [of 1000000000 1000000000 "\<lambda>date. ''1/1/1970''"]
    formatDate_future_just_now [of 1000000000 9000000000 "\<lambda>date. ''1/1/1970''"]
  by simp

section \<open>Parsing a repository URL\<close>

lemma takeWhile_segment:
  "CHR ''/'' \<notin> set seg \<Longrightarrow> rest = [] \<or> hd rest = CHR ''/'' \<Longrightarrow>
   takeWhile not_slash (seg @ rest) = seg"
proof (induction seg)
  case Nil
  then show ?case by (cases rest) (simp_all add: not_slash_def)
next
  case (Cons c seg)
  then show ?case by (auto simp: not_slash_def)
qed

lemma dropWhile_segment:
  "CHR ''/'' \<notin> set seg \<Longrightarrow> rest = [] \<or> hd rest = CHR ''/'' \<Longrightarrow>
   dropWhile not_slash (seg @ rest) = rest"
proof (induction seg)
  case Nil
  then show ?case by (cases rest) (simp_all add: not_slash_def)
next
  case (Cons c seg)
  then show ?case by (auto simp: not_slash_def)
qed

lemma match_here_form:
  assumes "two_segments_at s [] ow rp rest"
  shows "match_here s = Some (ow, rp)"
proof -
  from assms have s: "s = ''github.com/'' @ ow @ ''/'' @ rp @ rest"
    and ow: "ow \<noteq> []" "CHR ''/'' \<notin> set ow" and rp: "rp \<noteq> []" "CHR ''/'' \<notin> set rp"
    and rest: "rest = [] \<or> hd rest = CHR ''/''"
    by (simp_all add: two_segments_at_def)
  have t1: "takeWhile not_slash (ow @ ''/'' @ rp @ rest) = ow"
    using ow(2) by (intro takeWhile_segment) simp_all
  have d1: "dropWhile not_slash (ow @ ''/'' @ rp @ rest) = ''/'' @ rp @ rest"
    using ow(2) by (intro dropWhile_segment) simp_all
  have t2: "takeWhile not_slash (rp @ rest) = rp"
    using rp(2) rest by (rule takeWhile_segment)
  have p: "prefix ''github.com/'' s" and dr: "drop (length ''github.com/'') s = ow @ ''/'' @ rp @ rest"
    by (simp_all add: s)
  show ?thesis
    unfolding match_here_def Let_def dr t1 d1 using p ow(1) rp(1) t2 by simp
qed

lemma match_here_SomeD:
  assumes "match_here s = Some (ow, rp)"
  shows "\<exists>rest. two_segments_at s [] ow rp rest"
proof -
  from assms have p: "prefix ''github.com/'' s"
    by (auto simp: match_here_def split: if_splits)
  then obtain s1 where s: "s = ''github.com/'' @ s1" by (auto simp: prefix_def)
  then have dr: "drop (length ''github.com/'') s = s1" by simp
  from assms p obtain c s2 where
    ow: "ow = takeWhile not_slash s1" "ow \<noteq> []"
    and d: "dropWhile not_slash s1 = c # s2"
    and rp: "rp = takeWhile not_slash s2" "rp \<noteq> []"
    unfolding match_here_def Let_def dr
    by (auto split: if_splits list.splits)
  from d have c: "c = CHR ''/''"
    using hd_dropWhile [of not_slash s1] by (simp add: not_slash_def)
  have s1: "s1 = ow @ ''/'' @ s2"
    using takeWhile_dropWhile_id [of not_slash s1] ow(1) d c by simp
  have s2: "s2 = rp @ dropWhile not_slash s2"
    using rp(1) by simp
  have r: "dropWhile not_slash s2 = [] \<or> hd (dropWhile not_slash s2) = CHR ''/''"
    using hd_dropWhile [of not_slash s2] by (auto simp: not_slash_def)
  have ns1: "CHR ''/'' \<notin> set ow"
    using set_takeWhileD [of "CHR ''/''" not_slash s1] ow(1) by (auto simp: not_slash_def)
  have ns2: "CHR ''/'' \<notin> set rp"
    using set_takeWhileD [of "CHR ''/''" not_slash s2] rp(1) by (auto simp: not_slash_def)
  have "two_segments_at s [] ow rp (dropWhile not_slash s2)"
    unfolding two_segments_at_def using s s1 s2 r ow(2) rp(2) ns1 ns2
    by (metis append_Nil)
  then show ?thesis ..
qed

lemma match_here_imp_match: "match_here s = Some m \<Longrightarrow> match s = Some m"
  by (cases s) simp_all

lemma match_skip:
  "(\<forall>i<length pre. match_here (drop i (pre @ s)) = None) \<Longrightarrow> match (pre @ s) = match s"
proof (induction pre)
  case Nil
  then show ?case by simp
next
  case (Cons c pre)
  from Cons.prems have "match_here (drop 0 ((c # pre) @ s)) = None" by blast
  then have h: "match_here (c # pre @ s) = None" by simp
  have "\<forall>i<length pre. match_here (drop i (pre @ s)) = None"
  proof (intro allI impI)
    fix i assume "i < length pre"
    then have "Suc i < length (c # pre)" by simp
    with Cons.prems have "match_here (drop (Suc i) ((c # pre) @ s)) = None" by blast
    then show "match_here (drop i (pre @ s)) = None" by simp
  qed
  with Cons.IH have "match (pre @ s) = match s" .
  with h show ?case by simp
qed

lemma match_SomeD:
  "match s = Some m \<Longrightarrow> \<exists>pre suf. s = pre @ suf \<and> match_here suf = Some m"
proof (induction s)
  case Nil
  then have "[] = [] @ [] \<and> match_here [] = Some m" by simp
  then show ?case by (intro exI)
next
  case (Cons c s)
  show ?case
  proof (cases "match_here (c # s)")
    case None
    with Cons.prems have "match s = Some m" by simp
    with Cons.IH obtain pre suf where "s = pre @ suf" "match_here suf = Some m" by blast
    then have "c # s = (c # pre) @ suf \<and> match_here suf = Some m" by simp
    then show ?thesis by (intro exI)
  next
    case (Some a)
    with Cons.prems have "c # s = [] @ (c # s) \<and> match_here (c # s) = Some m" by simp
    then show ?thesis by (intro exI)
  qed
qed

lemma two_segments_at_shift:
  "two_segments_at suf [] ow rp rest \<Longrightarrow> two_segments_at (pre @ suf) pre ow rp rest"
  by (simp add: two_segments_at_def)

lemma two_segments_at_unshift:
  "two_segments_at url pre ow rp rest \<Longrightarrow>
   url = pre @ drop (length pre) url \<and> two_segments_at (drop (length pre) url) [] ow rp rest"
  by (simp add: two_segments_at_def)

lemma replace_git_suffix: "replace_git (base @ ''.git'') = base"
  by (simp add: replace_git_def suffix_def)

lemma replace_git_other: "\<not> suffix ''.git'' s \<Longrightarrow> replace_git s = s"
  by (simp add: replace_git_def)

lemma match_NoneD: "match (pre @ suf) = None \<Longrightarrow> match_here suf = None"
proof (induction pre)
  case Nil
  then show ?case using match_here_imp_match [of suf] by (cases "match_here suf") simp_all
next
  case (Cons c pre)
  then show ?case by (simp split: option.splits)
qed

lemma two_segments_imp_match:
  assumes "two_segments_at url pre ow rp rest"
  shows "match url \<noteq> None"
proof
  assume "match url = None"
  with two_segments_at_unshift [OF assms] match_NoneD [of pre "drop (length pre) url"]
  have "match_here (drop (length pre) url) = None" by simp
  with two_segments_at_unshift [OF assms] match_here_form show False by fastforce
qed

lemma parseRepoURL_owner_nonempty:
  assumes "parseRepoURL url = Inr r"
  shows "owner r \<noteq> []"
proof -
  from assms obtain m1 m2 where m: "match url = Some (m1, m2)" and r: "owner r = m1"
    by (auto simp: parseRepoURL_def split: option.splits)
  from match_SomeD [OF m] obtain suf where "match_here suf = Some (m1, m2)" by blast
  from match_here_SomeD [OF this] r show ?thesis by (auto simp: two_segments_at_def)
qed

text \<open>
  C6. When the input has the two-segment shape at \<open>pre\<close> and no occurrence of the shape
  starts earlier, the parser returns the owner segment and the repository segment, the
  latter without its ending \<^verbatim>\<open>.git\<close> when it has one (a segment \<open>base\<close> followed by \<^verbatim>\<open>.git\<close> gives
  \<open>base\<close>, a segment that does not end in \<^verbatim>\<open>.git\<close> gives itself). When the input has the
  shape nowhere, the parser throws its error.
\<close>

theorem parseRepoURL_two_segments:
  "(two_segments_at url pre ow rp rest
      \<and> (\<forall>pre' ow' rp' rest'. two_segments_at url pre' ow' rp' rest' \<longrightarrow> length pre \<le> length pre')
     \<longrightarrow> (\<exists>r. parseRepoURL url = Inr \<lparr>owner = ow, repo = r\<rparr>
              \<and> (\<forall>base. rp = base @ ''.git'' \<longrightarrow> r = base)
              \<and> (\<not> suffix ''.git'' rp \<longrightarrow> r = rp)))
   \<and> ((\<forall>pre' ow' rp' rest'. \<not> two_segments_at url pre' ow' rp' rest')
     \<longrightarrow> parseRepoURL url = Inl (Error ''Invalid GitHub repository URL''))"
proof (intro conjI impI)
  assume a: "two_segments_at url pre ow rp rest
      \<and> (\<forall>pre' ow' rp' rest'. two_segments_at url pre' ow' rp' rest' \<longrightarrow> length pre \<le> length pre')"
  define suf where "suf = drop (length pre) url"
  from a two_segments_at_unshift [of url pre ow rp rest]
  have url: "url = pre @ suf" and here: "two_segments_at suf [] ow rp rest"
    by (simp_all add: suf_def)
  have none: "match_here (drop i (pre @ suf)) = None" if i: "i < length pre" for i
  proof (rule ccontr)
    assume "match_here (drop i (pre @ suf)) \<noteq> None"
    then obtain ow' rp' where "match_here (drop i url) = Some (ow', rp')"
      using url by auto
    then obtain rest' where "two_segments_at (drop i url) [] ow' rp' rest'"
      using match_here_SomeD by blast
    then have "two_segments_at (take i url @ drop i url) (take i url) ow' rp' rest'"
      by (rule two_segments_at_shift)
    then have "two_segments_at url (take i url) ow' rp' rest'" by simp
    with a have "length pre \<le> length (take i url)" by blast
    with i show False by simp
  qed
  then have "match (pre @ suf) = match suf"
    by (intro match_skip) blast
  also have "\<dots> = Some (ow, rp)"
    using here by (intro match_here_imp_match match_here_form)
  finally have "parseRepoURL url = Inr \<lparr>owner = ow, repo = replace_git rp\<rparr>"
    by (simp add: parseRepoURL_def url)
  moreover have "\<forall>base. rp = base @ ''.git'' \<longrightarrow> replace_git rp = base"
    by (simp add: replace_git_suffix)
  moreover have "\<not> suffix ''.git'' rp \<longrightarrow> replace_git rp = rp"
    by (simp add: replace_git_other)
  ultimately show "\<exists>r. parseRepoURL url = Inr \<lparr>owner = ow, repo = r\<rparr>
              \<and> (\<forall>base. rp = base @ ''.git'' \<longrightarrow> r = base)
              \<and> (\<not> suffix ''.git'' rp \<longrightarrow> r = rp)"
    by (intro exI [of _ "replace_git rp"] conjI)
next
  assume no: "\<forall>pre' ow' rp' rest'. \<not> two_segments_at url pre' ow' rp' rest'"
  have "match url = None"
  proof (rule ccontr)
    assume "match url \<noteq> None"
    then obtain ow' rp' where "match url = Some (ow', rp')" by auto
    then obtain pre' suf' where "url = pre' @ suf'" "match_here suf' = Some (ow', rp')"
      using match_SomeD by blast
    then obtain rest' where "two_segments_at url pre' ow' rp' rest'"
      using match_here_SomeD two_segments_at_shift by blast
    with no show False by blast
  qed
  then show "parseRepoURL url = Inl (Error ''Invalid GitHub repository URL'')"
    by (simp add: parseRepoURL_def)
qed

theorem parseRepoURL_two_segments_witness:
  "parseRepoURL ''github.com/acme/widgets.git'' = Inr \<lparr>owner = ''acme'', repo = ''widgets''\<rparr>
   \<and> parseRepoURL ''https://github.com/acme/widgets/actions''
       = Inr \<lparr>owner = ''acme'', repo = ''widgets''\<rparr>
   \<and> parseRepoURL ''https://github.com/acme'' = Inl (Error ''Invalid GitHub repository URL'')"
proof -
  have a: "two_segments_at ''github.com/acme/widgets.git'' [] ''acme'' ''widgets.git'' []"
    by (simp add: two_segments_at_def)
  have "\<exists>r. parseRepoURL ''github.com/acme/widgets.git'' = Inr \<lparr>owner = ''acme'', repo = r\<rparr>
          \<and> (\<forall>base. ''widgets.git'' = base @ ''.git'' \<longrightarrow> r = base)
          \<and> (\<not> suffix ''.git'' ''widgets.git'' \<longrightarrow> r = ''widgets.git'')"
    using a parseRepoURL_two_segments
      [of "''github.com/acme/widgets.git''" "[]" "''acme''" "''widgets.git''" "[]"]
    by simp
  then obtain r where "parseRepoURL ''github.com/acme/widgets.git'' = Inr \<lparr>owner = ''acme'', repo = r\<rparr>"
    and "''widgets.git'' = ''widgets'' @ ''.git'' \<longrightarrow> r = ''widgets''"
    by blast
  then have first: "parseRepoURL ''github.com/acme/widgets.git''
      = Inr \<lparr>owner = ''acme'', repo = ''widgets''\<rparr>"
    by simp
  have b: "two_segments_at ''https://github.com/acme/widgets/actions'' ''https://'' ''acme''
      ''widgets'' ''/actions''"
    by (simp add: two_segments_at_def)
  have early: "\<not> prefix ''github.com/'' (drop i ''https://github.com/acme/widgets/actions'')"
    if "i < 8" for i
  proof -
    from that have "i \<in> {0, 1, 2, 3, 4, 5, 6, 7}" by auto
    then show ?thesis by auto
  qed
  have leftmost: "length ''https://'' \<le> length pre'"
    if "two_segments_at ''https://github.com/acme/widgets/actions'' pre' ow' rp' rest'"
    for pre' ow' rp' rest'
  proof (rule ccontr)
    assume "\<not> length ''https://'' \<le> length pre'"
    then have "length pre' < 8" by simp
    moreover from two_segments_at_unshift [OF that]
    have "prefix ''github.com/'' (drop (length pre') ''https://github.com/acme/widgets/actions'')"
      unfolding two_segments_at_def by (metis append_Nil prefixI)
    ultimately show False using early by blast
  qed
  have "\<exists>r. parseRepoURL ''https://github.com/acme/widgets/actions''
            = Inr \<lparr>owner = ''acme'', repo = r\<rparr>
          \<and> (\<forall>base. ''widgets'' = base @ ''.git'' \<longrightarrow> r = base)
          \<and> (\<not> suffix ''.git'' ''widgets'' \<longrightarrow> r = ''widgets'')"
    using b leftmost parseRepoURL_two_segments
      [of "''https://github.com/acme/widgets/actions''" "''https://''" "''acme''" "''widgets''"
          "''/actions''"]
    by blast
  then have second: "parseRepoURL ''https://github.com/acme/widgets/actions''
      = Inr \<lparr>owner = ''acme'', repo = ''widgets''\<rparr>"
    by (auto simp: suffix_to_prefix)
  have "match ''https://github.com/acme'' = None"
    by (simp add: match_here_def not_slash_def Let_def)
  then have "\<forall>pre' ow' rp' rest'. \<not> two_segments_at ''https://github.com/acme'' pre' ow' rp' rest'"
    using two_segments_imp_match by blast
  then have third: "parseRepoURL ''https://github.com/acme''
      = Inl (Error ''Invalid GitHub repository URL'')"
    using parseRepoURL_two_segments [of "''https://github.com/acme''"] by blast
  from first second third show ?thesis by simp
qed

text \<open>
  C7. The claim: whenever the parser succeeds, owner and repository name are both non-empty.
  The owner always is (\<open>parseRepoURL_owner_nonempty\<close>), and the pattern asks for a
  non-empty repository segment, but the segment \<^verbatim>\<open>.git\<close> is all suffix: stripping it leaves
  the empty repository name.
\<close>

theorem parseRepoURL_empty_repo:
  "parseRepoURL ''https://github.com/acme/.git'' = Inr \<lparr>owner = ''acme'', repo = ''''\<rparr>"
  by (simp add: parseRepoURL_def match_here_def not_slash_def replace_git_def Let_def)

end
